theory Spec2Isabelle
  imports Main "HOL-Library.AList"
begin

section \<open>Text\<close>

text \<open>
  The entry widgets hold Python strings. A \<^typ>\<open>char\<close> is read as the code point with its
  number, so a \<^typ>\<open>string\<close> is a text over the code points 0 to 255.

  \<^verbatim>\<open>str.strip()\<close> without an argument removes the leading and the trailing characters
  for which \<^verbatim>\<open>str.isspace\<close> holds: among the code points below 256 these are
  9 to 13, 28 to 32, 133 and 160.
\<close>

definition isspace :: "char \<Rightarrow> bool" where
  "isspace c =
     (let n = (of_char c :: nat)
      in (9 \<le> n \<and> n \<le> 13) \<or> (28 \<le> n \<and> n \<le> 32) \<or> n = 133 \<or> n = 160)"

definition strip :: "string \<Rightarrow> string" where
  "strip s = rev (dropWhile isspace (rev (dropWhile isspace s)))"

section \<open>The regular expression of the email check\<close>

text \<open>
  \<^verbatim>\<open>pattern = r"^[a-zA-Z0-9_.+-]+@[a-zA-Z0-9-]+\.[a-zA-Z0-9-.]+$"\<close>

  The pattern is a sequence of literal characters and of character classes under \<^verbatim>\<open>+\<close>,
  closed by \<^verbatim>\<open>$\<close>. A class is a list of ranges and single characters; in the last class
  the hyphen follows a complete range and so stands for itself, as does the dot.
\<close>

datatype class_item = Range char char | Single char

fun in_item :: "class_item \<Rightarrow> char \<Rightarrow> bool" where
  "in_item (Range lo hi) c =
     ((of_char lo :: nat) \<le> of_char c \<and> (of_char c :: nat) \<le> of_char hi)"
| "in_item (Single x) c = (c = x)"

definition in_class :: "class_item list \<Rightarrow> char \<Rightarrow> bool" where
  "in_class cs c = list_ex (\<lambda>i. in_item i c) cs"

datatype re_item = Lit char | OneOrMore "class_item list"

text \<open>
  The matcher backtracks as Python's does: \<open>plus_rests\<close> lists what is left of the text
  after each way of consuming one or more characters of the class, the longest first, and
  \<open>match_items\<close> lists what is left after each way of matching the whole sequence at the
  start of the text (\<^verbatim>\<open>re.match\<close> anchors there, as \<^verbatim>\<open>^\<close> does).
\<close>

fun plus_rests :: "class_item list \<Rightarrow> string \<Rightarrow> string list" where
  "plus_rests cs [] = []"
| "plus_rests cs (x # xs) = (if in_class cs x then plus_rests cs xs @ [xs] else [])"

fun match_items :: "re_item list \<Rightarrow> string \<Rightarrow> string list" where
  "match_items [] s = [s]"
| "match_items (Lit c # items) [] = []"
| "match_items (Lit c # items) (x # xs) = (if x = c then match_items items xs else [])"
| "match_items (OneOrMore cs # items) s = concat (map (match_items items) (plus_rests cs s))"

text \<open>
  Without \<^verbatim>\<open>re.MULTILINE\<close>, \<^verbatim>\<open>$\<close> holds at the end of the text and just before a
  line feed that ends the text.
\<close>

definition at_dollar :: "string \<Rightarrow> bool" where
  "at_dollar rest = (rest = [] \<or> rest = [CHR 0x0A])"

definition local_class :: "class_item list" where
  "local_class =
     [Range CHR ''a'' CHR ''z'', Range CHR ''A'' CHR ''Z'', Range CHR ''0'' CHR ''9'',
      Single CHR ''_'', Single CHR ''.'', Single CHR ''+'', Single CHR ''-'']"

definition label_class :: "class_item list" where
  "label_class =
     [Range CHR ''a'' CHR ''z'', Range CHR ''A'' CHR ''Z'', Range CHR ''0'' CHR ''9'',
      Single CHR ''-'']"

definition tail_class :: "class_item list" where
  "tail_class =
     [Range CHR ''a'' CHR ''z'', Range CHR ''A'' CHR ''Z'', Range CHR ''0'' CHR ''9'',
      Single CHR ''-'', Single CHR ''.'']"

definition pattern :: "re_item list" where
  "pattern =
     [OneOrMore local_class, Lit CHR ''@'', OneOrMore label_class, Lit CHR ''.'',
      OneOrMore tail_class]"

definition is_valid_email :: "string \<Rightarrow> bool" where
  "is_valid_email email = list_ex at_dollar (match_items pattern email)"

section \<open>The customers table\<close>

text \<open>
  The file \<^verbatim>\<open>customers.db\<close> is a list of named tables. A column carries what its
  definition in \<^verbatim>\<open>CREATE TABLE\<close> says; a stored value is a text or \<open>NULL\<close> (\<open>None\<close>).
  Rows are kept in the layout of the program's table, in the order of insertion, and
  \<open>seq\<close> is the largest id the table has ever given out (\<^verbatim>\<open>AUTOINCREMENT\<close>).
\<close>

record column =
  col_name :: string
  col_type :: string
  not_null :: bool
  primary_key :: bool
  autoincrement :: bool

type_synonym sql_value = "string option"

record customer =
  id_col :: int
  name_col :: sql_value
  birthday_col :: sql_value
  email_col :: sql_value
  phone_col :: sql_value
  address_col :: sql_value
  contact_method_col :: sql_value

record table =
  columns :: "column list"
  rows :: "customer list"
  seq :: int

type_synonym database = "(string \<times> table) list"

definition customers_columns :: "column list" where
  "customers_columns =
     [\<lparr>col_name = ''id'', col_type = ''INTEGER'', not_null = False, primary_key = True,
        autoincrement = True\<rparr>,
      \<lparr>col_name = ''name'', col_type = ''TEXT'', not_null = True, primary_key = False,
        autoincrement = False\<rparr>,
      \<lparr>col_name = ''birthday'', col_type = ''TEXT'', not_null = False, primary_key = False,
        autoincrement = False\<rparr>,
      \<lparr>col_name = ''email'', col_type = ''TEXT'', not_null = True, primary_key = False,
        autoincrement = False\<rparr>,
      \<lparr>col_name = ''phone'', col_type = ''TEXT'', not_null = False, primary_key = False,
        autoincrement = False\<rparr>,
      \<lparr>col_name = ''address'', col_type = ''TEXT'', not_null = False, primary_key = False,
        autoincrement = False\<rparr>,
      \<lparr>col_name = ''contact_method'', col_type = ''TEXT'', not_null = False,
        primary_key = False, autoincrement = False\<rparr>]"

text \<open>\<^verbatim>\<open>CREATE TABLE IF NOT EXISTS customers (...)\<close>: a table of that name is left as it is.\<close>

definition create_table_if_not_exists :: "string \<Rightarrow> column list \<Rightarrow> database \<Rightarrow> database" where
  "create_table_if_not_exists n cols db =
     (case map_of db n of
        Some t \<Rightarrow> db
      | None \<Rightarrow> db @ [(n, \<lparr>columns = cols, rows = [], seq = 0\<rparr>)])"

definition customers_rows :: "database \<Rightarrow> customer list" where
  "customers_rows db = (case map_of db ''customers'' of None \<Rightarrow> [] | Some t \<Rightarrow> rows t)"

text \<open>
  The id of a new row is one more than the largest id that the table holds or has ever
  given out; beyond the largest 64-bit integer the statement fails.
\<close>

definition next_rowid :: "table \<Rightarrow> int" where
  "next_rowid t = fold max (map id_col (rows t)) (max 0 (seq t)) + 1"

definition max_rowid :: int where
  "max_rowid = 9223372036854775807"

text \<open>
  \<^verbatim>\<open>INSERT INTO customers (name, birthday, email, phone, address, contact_method)
  VALUES (?, ?, ?, ?, ?, ?)\<close> with the six values bound. The statement is refused when
  there is no such table or when the table lacks a column that the statement names. It
  fails when a column declared \<^verbatim>\<open>NOT NULL\<close> would hold \<open>NULL\<close>, be it bound to \<open>NULL\<close> or
  not named by the statement; a column \<^verbatim>\<open>INTEGER PRIMARY KEY\<close> stands for the id and is
  filled in. Whatever else makes the engine turn the statement down is a fault of the call.
\<close>

definition missing_columns :: "column list \<Rightarrow> string list \<Rightarrow> string list" where
  "missing_columns cols names = filter (\<lambda>n. n \<notin> set (map col_name cols)) names"

definition bound_value :: "(string \<times> sql_value) list \<Rightarrow> string \<Rightarrow> sql_value" where
  "bound_value bindings n = (case map_of bindings n of None \<Rightarrow> None | Some v \<Rightarrow> v)"

definition rowid_alias :: "column \<Rightarrow> bool" where
  "rowid_alias c = (primary_key c \<and> col_type c = ''INTEGER'')"

definition not_null_violations :: "column list \<Rightarrow> (string \<times> sql_value) list \<Rightarrow> string list" where
  "not_null_violations cols bindings =
     map col_name
       (filter (\<lambda>c. not_null c \<and> \<not> rowid_alias c \<and> bound_value bindings (col_name c) = None)
          cols)"

definition insert_into_customers ::
  "sql_value \<Rightarrow> sql_value \<Rightarrow> sql_value \<Rightarrow> sql_value \<Rightarrow> sql_value \<Rightarrow> sql_value \<Rightarrow>
   database \<Rightarrow> string + database" where
  "insert_into_customers name birthday email phone address contact_method db =
     (case map_of db ''customers'' of
        None \<Rightarrow> Inl ''no such table: customers''
      | Some t \<Rightarrow>
          (case missing_columns (columns t)
                  [''name'', ''birthday'', ''email'', ''phone'', ''address'',
                   ''contact_method''] of
             n # ns \<Rightarrow> Inl (''table customers has no column named '' @ n)
           | [] \<Rightarrow>
               (case not_null_violations (columns t)
                       [(''name'', name), (''birthday'', birthday), (''email'', email),
                        (''phone'', phone), (''address'', address),
                        (''contact_method'', contact_method)] of
                  n # ns \<Rightarrow> Inl (''NOT NULL constraint failed: customers.'' @ n)
                | [] \<Rightarrow>
                    (let i = next_rowid t
                     in if max_rowid < i then Inl ''database or disk is full''
                        else Inr (AList.update ''customers''
                               (t\<lparr>rows := rows t @
                                    [\<lparr>id_col = i, name_col = name, birthday_col = birthday,
                                      email_col = email, phone_col = phone,
                                      address_col = address,
                                      contact_method_col = contact_method\<rparr>],
                                  seq := i\<rparr>) db)))))"

section \<open>The application\<close>

text \<open>
  The state of \<^verbatim>\<open>CustomerApp\<close> and of what it acts on: the five entries and the variable of
  the combobox, the database file, the message boxes shown so far, the connections opened
  and closed so far, and whether the root window still exists.

  What the storage engine does for reasons outside the program (a file that cannot be
  opened, a locked or full disk) enters each call as its \<open>faults\<close>: the text of the
  \<^verbatim>\<open>sqlite3.Error\<close> that \<^verbatim>\<open>connect\<close>, \<^verbatim>\<open>execute\<close> or \<^verbatim>\<open>commit\<close> raises, if any.
\<close>

record form =
  name_entry :: string
  birthday_entry :: string
  email_entry :: string
  phone_entry :: string
  address_entry :: string
  contact_method_var :: string

datatype message =
  Showinfo string string
| Showwarning string string
| Showerror string string

record faults =
  connect_fault :: "string option"
  execute_fault :: "string option"
  commit_fault :: "string option"

record app =
  form :: form
  database :: database
  messages :: "message list"
  opened :: nat
  closed :: nat
  window_alive :: bool

datatype outcome = Returned | Raised string

definition no_faults :: faults where
  "no_faults = \<lparr>connect_fault = None, execute_fault = None, commit_fault = None\<rparr>"

definition notify :: "message \<Rightarrow> app \<Rightarrow> app" where
  "notify m a = a\<lparr>messages := messages a @ [m]\<rparr>"

definition connect :: "app \<Rightarrow> app" where
  "connect a = a\<lparr>opened := Suc (opened a)\<rparr>"

definition close_conn :: "app \<Rightarrow> app" where
  "close_conn a = a\<lparr>closed := Suc (closed a)\<rparr>"

definition root_destroy :: "app \<Rightarrow> app" where
  "root_destroy a = a\<lparr>window_alive := False\<rparr>"

text \<open>
  \<^verbatim>\<open>setup_database\<close>. When \<^verbatim>\<open>sqlite3.connect\<close> raises, \<^verbatim>\<open>conn\<close> is never bound, and
  the \<^verbatim>\<open>finally\<close> clause, which reads it, raises \<^verbatim>\<open>UnboundLocalError\<close> after the handler
  has run. The table is created by the statement itself, before \<^verbatim>\<open>commit\<close>.
\<close>

definition setup_failed :: "string \<Rightarrow> app \<Rightarrow> app" where
  "setup_failed e a =
     root_destroy (notify (Showerror ''Database Error'' (''An error occurred: '' @ e)) a)"

definition setup_database :: "faults \<Rightarrow> app \<Rightarrow> outcome \<times> app" where
  "setup_database f a =
     (case connect_fault f of
        Some e \<Rightarrow> (Raised ''UnboundLocalError'', setup_failed e a)
      | None \<Rightarrow>
          (let a1 = connect a
           in case execute_fault f of
                Some e \<Rightarrow> (Returned, close_conn (setup_failed e a1))
              | None \<Rightarrow>
                  (let a2 = a1\<lparr>database :=
                              create_table_if_not_exists ''customers'' customers_columns
                                (database a1)\<rparr>
                   in case commit_fault f of
                        Some e \<Rightarrow> (Returned, close_conn (setup_failed e a2))
                      | None \<Rightarrow> (Returned, close_conn a2))))"

text \<open>\<^verbatim>\<open>create_widgets\<close>: five empty entries, the combobox set to the first option.\<close>

definition contact_options :: "string list" where
  "contact_options = [''Email'', ''Phone'', ''Mail'']"

definition create_widgets :: form where
  "create_widgets =
     \<lparr>name_entry = [], birthday_entry = [], email_entry = [], phone_entry = [],
      address_entry = [], contact_method_var = hd contact_options\<rparr>"

definition clear_form :: "form \<Rightarrow> form" where
  "clear_form w =
     w\<lparr>name_entry := [], birthday_entry := [], email_entry := [], phone_entry := [],
       address_entry := [], contact_method_var := ''Email''\<rparr>"

text \<open>
  The \<^verbatim>\<open>try\<close> statement of \<^verbatim>\<open>submit_data\<close>. The row is inserted in a transaction that
  \<^verbatim>\<open>commit\<close> ends; a connection closed before that rolls the row back.
\<close>

definition save_failed :: "string \<Rightarrow> app \<Rightarrow> app" where
  "save_failed e a = notify (Showerror ''Database Error'' (''Failed to save data: '' @ e)) a"

definition execute_insert ::
  "faults \<Rightarrow> string \<Rightarrow> string \<Rightarrow> string \<Rightarrow> string \<Rightarrow> string \<Rightarrow> string \<Rightarrow> database \<Rightarrow>
   string + database" where
  "execute_insert f name birthday email phone address contact_method db =
     (case execute_fault f of
        Some e \<Rightarrow> Inl e
      | None \<Rightarrow>
          insert_into_customers (Some name) (Some birthday) (Some email) (Some phone)
            (Some address) (Some contact_method) db)"

definition store_customer ::
  "faults \<Rightarrow> string \<Rightarrow> string \<Rightarrow> string \<Rightarrow> string \<Rightarrow> string \<Rightarrow> string \<Rightarrow> app \<Rightarrow>
   outcome \<times> app" where
  "store_customer f name birthday email phone address contact_method a =
     (case connect_fault f of
        Some e \<Rightarrow> (Raised ''UnboundLocalError'', save_failed e a)
      | None \<Rightarrow>
          (let a1 = connect a
           in case execute_insert f name birthday email phone address contact_method
                     (database a1) of
                Inl e \<Rightarrow> (Returned, close_conn (save_failed e a1))
              | Inr db \<Rightarrow>
                  (case commit_fault f of
                     Some e \<Rightarrow> (Returned, close_conn (save_failed e a1))
                   | None \<Rightarrow>
                       (let a2 = notify
                                  (Showinfo ''Success''
                                     ''Customer information saved successfully!'')
                                  (a1\<lparr>database := db\<rparr>);
                            a3 = a2\<lparr>form := clear_form (form a2)\<rparr>
                        in (Returned, close_conn a3)))))"

definition submit_data :: "faults \<Rightarrow> app \<Rightarrow> outcome \<times> app" where
  "submit_data f a =
     (let name = strip (name_entry (form a));
          birthday = strip (birthday_entry (form a));
          email = strip (email_entry (form a));
          phone = strip (phone_entry (form a));
          address = strip (address_entry (form a));
          contact_method = contact_method_var (form a)
      in if name = [] \<or> email = [] then
           (Returned,
            notify (Showwarning ''Validation Error'' ''Name and Email are required fields.'') a)
         else if \<not> is_valid_email email then
           (Returned,
            notify (Showwarning ''Validation Error'' ''Please enter a valid email address.'') a)
         else store_customer f name birthday email phone address contact_method a)"

text \<open>
  What the user can do between two submissions: replace the content of an entry by any
  text, or pick one of the options of the read-only combobox.
\<close>

datatype entry = Name_entry | Birthday_entry | Email_entry | Phone_entry | Address_entry

fun set_entry :: "entry \<Rightarrow> string \<Rightarrow> form \<Rightarrow> form" where
  "set_entry Name_entry v w = w\<lparr>name_entry := v\<rparr>"
| "set_entry Birthday_entry v w = w\<lparr>birthday_entry := v\<rparr>"
| "set_entry Email_entry v w = w\<lparr>email_entry := v\<rparr>"
| "set_entry Phone_entry v w = w\<lparr>phone_entry := v\<rparr>"
| "set_entry Address_entry v w = w\<lparr>address_entry := v\<rparr>"

datatype event = Edit entry string | Select string | Submit faults | Setup faults

fun handle :: "event \<Rightarrow> app \<Rightarrow> app" where
  "handle (Edit e v) a = a\<lparr>form := set_entry e v (form a)\<rparr>"
| "handle (Select v) a =
     (if v \<in> set contact_options then a\<lparr>form := (form a)\<lparr>contact_method_var := v\<rparr>\<rparr> else a)"
| "handle (Submit f) a = snd (submit_data f a)"
| "handle (Setup f) a = snd (setup_database f a)"

definition run :: "event list \<Rightarrow> app \<Rightarrow> app" where
  "run evs a = fold handle evs a"

section \<open>Notions used in the statements\<close>

text \<open>A text is trimmed when it neither starts nor ends with a whitespace character.\<close>

definition trimmed :: "string \<Rightarrow> bool" where
  "trimmed v = (v = [] \<or> (\<not> isspace (hd v) \<and> \<not> isspace (last v)))"

text \<open>ASCII letters and digits, by enumeration.\<close>

definition ascii_letter :: "char \<Rightarrow> bool" where
  "ascii_letter c =
     (c \<in> set ''abcdefghijklmnopqrstuvwxyz'' \<or> c \<in> set ''ABCDEFGHIJKLMNOPQRSTUVWXYZ'')"

definition ascii_digit :: "char \<Rightarrow> bool" where
  "ascii_digit c = (c \<in> set ''0123456789'')"

definition local_char :: "char \<Rightarrow> bool" where
  "local_char c = (ascii_letter c \<or> ascii_digit c \<or> c \<in> set ''_.+-'')"

definition label_char :: "char \<Rightarrow> bool" where
  "label_char c = (ascii_letter c \<or> ascii_digit c \<or> c = CHR ''-'')"

text \<open>
  The form of the specification, read from its words: a local part of one or more letters,
  digits and \<^verbatim>\<open>_.+-\<close>, an \<^verbatim>\<open>@\<close>, and a domain that is two or more segments joined by dots,
  a segment being one or more letters, digits and hyphens. \<open>split_on\<close> cuts a text at
  every occurrence of a character, as \<^verbatim>\<open>str.split\<close> does.
\<close>

fun split_on :: "char \<Rightarrow> string \<Rightarrow> string list" where
  "split_on c [] = [[]]"
| "split_on c (x # xs) =
     (if x = c then [] # split_on c xs
      else (case split_on c xs of [] \<Rightarrow> [[x]] | g # gs \<Rightarrow> (x # g) # gs))"

definition spec_local_part :: "string \<Rightarrow> bool" where
  "spec_local_part l = (l \<noteq> [] \<and> list_all local_char l)"

definition spec_segment :: "string \<Rightarrow> bool" where
  "spec_segment g = (g \<noteq> [] \<and> list_all label_char g)"

definition spec_domain :: "string \<Rightarrow> bool" where
  "spec_domain d = (2 \<le> length (split_on CHR ''.'' d) \<and> list_all spec_segment (split_on CHR ''.'' d))"

definition spec_email_form :: "string \<Rightarrow> bool" where
  "spec_email_form s =
     (case split_on CHR ''@'' s of
        [l, d] \<Rightarrow> spec_local_part l \<and> spec_domain d
      | _ \<Rightarrow> False)"

text \<open>
  The form that the pattern describes: after the \<^verbatim>\<open>@\<close>, one or more letters, digits and
  hyphens, a dot, and one or more letters, digits, hyphens and dots.
\<close>

definition accepted_form :: "string \<Rightarrow> bool" where
  "accepted_form s =
     (\<exists>l h t. s = l @ ''@'' @ h @ ''.'' @ t \<and>
        l \<noteq> [] \<and> list_all local_char l \<and>
        h \<noteq> [] \<and> list_all label_char h \<and>
        t \<noteq> [] \<and> list_all (\<lambda>c. label_char c \<or> c = CHR ''.'') t)"

text \<open>
  A row as the program stores it: a name that is not empty and an email of the form that
  the pattern describes. And a row as the specification describes it: a name that is not
  empty and an email of the form of the specification.
\<close>

definition valid_row :: "customer \<Rightarrow> bool" where
  "valid_row r =
     ((case name_col r of None \<Rightarrow> False | Some n \<Rightarrow> n \<noteq> []) \<and>
      (case email_col r of None \<Rightarrow> False | Some e \<Rightarrow> accepted_form e))"

definition spec_valid_row :: "customer \<Rightarrow> bool" where
  "spec_valid_row r =
     ((case name_col r of None \<Rightarrow> False | Some n \<Rightarrow> n \<noteq> []) \<and>
      (case email_col r of None \<Rightarrow> False | Some e \<Rightarrow> spec_email_form e))"

definition count_tables :: "string \<Rightarrow> database \<Rightarrow> nat" where
  "count_tables n db = length (filter (\<lambda>e. fst e = n) db)"

text \<open>
  The two guards of \<^verbatim>\<open>submit_data\<close> let the submission through; the error, if any, that the
  \<^verbatim>\<open>try\<close> statement then meets on the trimmed values (from \<^verbatim>\<open>connect\<close>, from the
  \<^verbatim>\<open>INSERT\<close>, or from \<^verbatim>\<open>commit\<close>); and the form with nothing entered.
\<close>

definition validation_passes :: "app \<Rightarrow> bool" where
  "validation_passes a =
     (strip (name_entry (form a)) \<noteq> [] \<and> strip (email_entry (form a)) \<noteq> [] \<and>
      is_valid_email (strip (email_entry (form a))))"

definition storage_failure :: "faults \<Rightarrow> app \<Rightarrow> string option" where
  "storage_failure f a =
     (case connect_fault f of
        Some e \<Rightarrow> Some e
      | None \<Rightarrow>
          (case execute_insert f (strip (name_entry (form a))) (strip (birthday_entry (form a)))
                  (strip (email_entry (form a))) (strip (phone_entry (form a)))
                  (strip (address_entry (form a))) (contact_method_var (form a)) (database a) of
             Inl e \<Rightarrow> Some e
           | Inr db \<Rightarrow> commit_fault f))"

definition empty_form :: form where
  "empty_form =
     \<lparr>name_entry = [], birthday_entry = [], email_entry = [], phone_entry = [],
      address_entry = [], contact_method_var = ''Email''\<rparr>"

text \<open>
  The row that \<^verbatim>\<open>submit_data\<close> binds to the \<^verbatim>\<open>INSERT\<close> for a form, under a given id; a
  stored value without whitespace at either end; two forms that differ only in the
  whitespace around their entries; and a row whose contact method is one that the combobox
  offers.
\<close>

definition bound_row :: "int \<Rightarrow> form \<Rightarrow> customer" where
  "bound_row i w =
     \<lparr>id_col = i, name_col = Some (strip (name_entry w)),
      birthday_col = Some (strip (birthday_entry w)), email_col = Some (strip (email_entry w)),
      phone_col = Some (strip (phone_entry w)), address_col = Some (strip (address_entry w)),
      contact_method_col = Some (contact_method_var w)\<rparr>"

definition trimmed_value :: "sql_value \<Rightarrow> bool" where
  "trimmed_value v = (case v of None \<Rightarrow> True | Some s \<Rightarrow> trimmed s)"

definition same_trimmed :: "form \<Rightarrow> form \<Rightarrow> bool" where
  "same_trimmed w w' =
     (strip (name_entry w) = strip (name_entry w') \<and>
      strip (birthday_entry w) = strip (birthday_entry w') \<and>
      strip (email_entry w) = strip (email_entry w') \<and>
      strip (phone_entry w) = strip (phone_entry w') \<and>
      strip (address_entry w) = strip (address_entry w') \<and>
      contact_method_var w = contact_method_var w')"

definition offered_method :: "customer \<Rightarrow> bool" where
  "offered_method r =
     (case contact_method_col r of None \<Rightarrow> False | Some m \<Rightarrow> m \<in> set contact_options)"

text \<open>
  States to run the program on: the window before \<^verbatim>\<open>setup_database\<close> with no database
  file yet, the same after it, and the form of the end-to-end test.
\<close>

definition fresh_app :: app where
  "fresh_app =
     \<lparr>form = create_widgets, database = [], messages = [], opened = 0, closed = 0,
      window_alive = True\<rparr>"

definition ready_app :: app where
  "ready_app = snd (setup_database no_faults fresh_app)"

definition jane_form :: form where
  "jane_form =
     \<lparr>name_entry = ''Jane Doe'', birthday_entry = ''1990-01-01'',
      email_entry = ''jane@example.com'', phone_entry = ''555-1234'',
      address_entry = ''1 Main St'', contact_method_var = ''Phone''\<rparr>"

definition unable_to_open :: faults where
  "unable_to_open =
     \<lparr>connect_fault = Some ''unable to open database file'', execute_fault = None,
      commit_fault = None\<rparr>"

text \<open>
  The form of the end-to-end test with whitespace around its entries; a session that
  submits an email with two dots in a row; and a longer session: two submissions that
  store a row, one that the email check turns down, one that cannot open the database, a
  selection that the combobox does not offer, and a second set-up.
\<close>

definition padded_form :: form where
  "padded_form =
     \<lparr>name_entry = ''  Jane Doe '', birthday_entry = '' 1990-01-01'',
      email_entry = ''jane@example.com  '', phone_entry = '' 555-1234 '',
      address_entry = ''1 Main St '', contact_method_var = ''Phone''\<rparr>"

definition dotted_submission :: "event list" where
  "dotted_submission =
     [Setup no_faults, Edit Name_entry ''Jane Doe'', Edit Email_entry ''a@b..c'',
      Submit no_faults]"

definition two_submissions :: "event list" where
  "two_submissions =
     [Setup no_faults,
      Edit Name_entry '' Jane Doe '', Edit Email_entry ''jane@example.com'', Select ''Phone'',
      Submit no_faults,
      Edit Name_entry ''John'', Edit Email_entry ''not an email'', Submit no_faults,
      Edit Email_entry ''john.doe+tag@example.org'', Select ''Fax'', Submit unable_to_open,
      Setup no_faults, Submit no_faults]"

section \<open>What the pattern accepts\<close>

lemma in_local_class: "in_class local_class c = local_char c"
  by (cases c) (simp add: in_class_def local_class_def local_char_def ascii_letter_def ascii_digit_def, blast?)

lemma in_label_class: "in_class label_class c = label_char c"
  by (cases c) (simp add: in_class_def label_class_def label_char_def ascii_letter_def ascii_digit_def, blast?)

lemma in_tail_class: "in_class tail_class c = (label_char c \<or> c = CHR ''.'')"
  by (cases c) (simp add: in_class_def tail_class_def label_char_def ascii_letter_def ascii_digit_def, blast?)

lemma plus_rests_iff:
  "r \<in> set (plus_rests cs s) \<longleftrightarrow> (\<exists>u. u \<noteq> [] \<and> list_all (in_class cs) u \<and> s = u @ r)"
proof (induction s)
  case Nil
  then show ?case by simp
next
  case (Cons x xs)
  show ?case
  proof (cases "in_class cs x")
    case False
    have "\<not> (\<exists>u. u \<noteq> [] \<and> list_all (in_class cs) u \<and> x # xs = u @ r)"
    proof
      assume "\<exists>u. u \<noteq> [] \<and> list_all (in_class cs) u \<and> x # xs = u @ r"
      then obtain u where u: "u \<noteq> []" "list_all (in_class cs) u" "x # xs = u @ r" by blast
      then obtain u' where "u = x # u'" by (cases u) auto
      with u False show False by simp
    qed
    with False show ?thesis by simp
  next
    case True
    show ?thesis
    proof
      assume "r \<in> set (plus_rests cs (x # xs))"
      with True have "r \<in> set (plus_rests cs xs) \<or> r = xs" by auto
      then show "\<exists>u. u \<noteq> [] \<and> list_all (in_class cs) u \<and> x # xs = u @ r"
      proof
        assume "r \<in> set (plus_rests cs xs)"
        with Cons.IH obtain u where "u \<noteq> []" "list_all (in_class cs) u" "xs = u @ r" by blast
        with True have "x # u \<noteq> [] \<and> list_all (in_class cs) (x # u) \<and> x # xs = (x # u) @ r"
          by simp
        then show ?thesis by blast
      next
        assume "r = xs"
        with True have "[x] \<noteq> [] \<and> list_all (in_class cs) [x] \<and> x # xs = [x] @ r" by simp
        then show ?thesis by blast
      qed
    next
      assume "\<exists>u. u \<noteq> [] \<and> list_all (in_class cs) u \<and> x # xs = u @ r"
      then obtain u where u: "u \<noteq> []" "list_all (in_class cs) u" "x # xs = u @ r" by blast
      then obtain u' where u': "u = x # u'" by (cases u) auto
      show "r \<in> set (plus_rests cs (x # xs))"
      proof (cases "u' = []")
        case True
        with u u' \<open>in_class cs x\<close> show ?thesis by simp
      next
        case False
        with u u' have "u' \<noteq> [] \<and> list_all (in_class cs) u' \<and> xs = u' @ r" by simp
        with Cons.IH have "r \<in> set (plus_rests cs xs)" by blast
        with \<open>in_class cs x\<close> show ?thesis by simp
      qed
    qed
  qed
qed

lemma match_lit_iff:
  "r \<in> set (match_items (Lit c # items) s) \<longleftrightarrow> (\<exists>xs. s = c # xs \<and> r \<in> set (match_items items xs))"
  by (cases s) auto

lemma match_plus_iff:
  "r \<in> set (match_items (OneOrMore cs # items) s) \<longleftrightarrow>
     (\<exists>u s'. u \<noteq> [] \<and> list_all (in_class cs) u \<and> s = u @ s' \<and> r \<in> set (match_items items s'))"
proof -
  have "r \<in> set (match_items (OneOrMore cs # items) s) \<longleftrightarrow>
          (\<exists>s'. s' \<in> set (plus_rests cs s) \<and> r \<in> set (match_items items s'))"
    by auto
  also have "\<dots> \<longleftrightarrow>
          (\<exists>u s'. u \<noteq> [] \<and> list_all (in_class cs) u \<and> s = u @ s' \<and> r \<in> set (match_items items s'))"
    unfolding plus_rests_iff by blast
  finally show ?thesis .
qed

lemma class_preds:
  "in_class local_class = local_char"
  "in_class label_class = label_char"
  "in_class tail_class = (\<lambda>c. label_char c \<or> c = CHR ''.'')"
  by (rule ext, rule in_local_class, rule ext, rule in_label_class, rule ext, rule in_tail_class)

lemma match_pattern_iff:
  "r \<in> set (match_items pattern s) \<longleftrightarrow>
     (\<exists>l h t. s = l @ ''@'' @ h @ ''.'' @ t @ r \<and>
        l \<noteq> [] \<and> list_all local_char l \<and>
        h \<noteq> [] \<and> list_all label_char h \<and>
        t \<noteq> [] \<and> list_all (\<lambda>c. label_char c \<or> c = CHR ''.'') t)"
  (is "?L \<longleftrightarrow> ?R")
proof
  assume ?L
  then obtain l s1 where l: "l \<noteq> []" "list_all local_char l" "s = l @ s1"
    and m1: "r \<in> set (match_items [Lit CHR ''@'', OneOrMore label_class, Lit CHR ''.'', OneOrMore tail_class] s1)"
    unfolding pattern_def match_plus_iff class_preds by blast
  from m1 obtain s2 where s2: "s1 = CHR ''@'' # s2"
    and m2: "r \<in> set (match_items [OneOrMore label_class, Lit CHR ''.'', OneOrMore tail_class] s2)"
    unfolding match_lit_iff by blast
  from m2 obtain h s3 where h: "h \<noteq> []" "list_all label_char h" "s2 = h @ s3"
    and m3: "r \<in> set (match_items [Lit CHR ''.'', OneOrMore tail_class] s3)"
    unfolding match_plus_iff class_preds by blast
  from m3 obtain s4 where s4: "s3 = CHR ''.'' # s4"
    and m4: "r \<in> set (match_items [OneOrMore tail_class] s4)"
    unfolding match_lit_iff by blast
  from m4 obtain t where t: "t \<noteq> []" "list_all (\<lambda>c. label_char c \<or> c = CHR ''.'') t" "s4 = t @ r"
    unfolding match_plus_iff class_preds by auto
  from l s2 h s4 t have "s = l @ ''@'' @ h @ ''.'' @ t @ r" by simp
  with l h t show ?R by blast
next
  assume ?R
  then obtain l h t where s: "s = l @ ''@'' @ h @ ''.'' @ t @ r"
    and l: "l \<noteq> []" "list_all local_char l"
    and h: "h \<noteq> []" "list_all label_char h"
    and t: "t \<noteq> []" "list_all (\<lambda>c. label_char c \<or> c = CHR ''.'') t"
    by blast
  from t have m4: "r \<in> set (match_items [OneOrMore tail_class] (t @ r))"
    unfolding match_plus_iff class_preds by auto
  then have m3: "r \<in> set (match_items [Lit CHR ''.'', OneOrMore tail_class] (''.'' @ t @ r))"
    unfolding match_lit_iff by simp
  with h have m2: "r \<in> set (match_items [OneOrMore label_class, Lit CHR ''.'', OneOrMore tail_class]
                      (h @ ''.'' @ t @ r))"
    unfolding match_plus_iff [of r label_class] class_preds by blast
  then have m1: "r \<in> set (match_items [Lit CHR ''@'', OneOrMore label_class, Lit CHR ''.'', OneOrMore tail_class]
                      (''@'' @ h @ ''.'' @ t @ r))"
    unfolding match_lit_iff [of r "CHR ''@''"] by simp
  with l have "r \<in> set (match_items pattern (l @ ''@'' @ h @ ''.'' @ t @ r))"
    unfolding pattern_def match_plus_iff [of r local_class] class_preds by blast
  with s show ?L by simp
qed

lemma is_valid_email_iff:
  "is_valid_email s \<longleftrightarrow> accepted_form s \<or> (\<exists>p. s = p @ [CHR 0x0A] \<and> accepted_form p)"
proof -
  have "is_valid_email s \<longleftrightarrow> [] \<in> set (match_items pattern s) \<or> [CHR 0x0A] \<in> set (match_items pattern s)"
    by (auto simp: is_valid_email_def list_ex_iff at_dollar_def)
  moreover have "[] \<in> set (match_items pattern s) \<longleftrightarrow> accepted_form s"
    unfolding match_pattern_iff accepted_form_def by simp
  moreover have "[CHR 0x0A] \<in> set (match_items pattern s) \<longleftrightarrow> (\<exists>p. s = p @ [CHR 0x0A] \<and> accepted_form p)"
  proof
    assume "[CHR 0x0A] \<in> set (match_items pattern s)"
    then obtain l h t where s: "s = l @ ''@'' @ h @ ''.'' @ t @ [CHR 0x0A]"
      and r: "l \<noteq> []" "list_all local_char l" "h \<noteq> []" "list_all label_char h"
         "t \<noteq> []" "list_all (\<lambda>c. label_char c \<or> c = CHR ''.'') t"
      unfolding match_pattern_iff by blast
    from r have "accepted_form (l @ ''@'' @ h @ ''.'' @ t)"
      unfolding accepted_form_def by blast
    moreover from s have "s = (l @ ''@'' @ h @ ''.'' @ t) @ [CHR 0x0A]" by simp
    ultimately show "\<exists>p. s = p @ [CHR 0x0A] \<and> accepted_form p" by blast
  next
    assume "\<exists>p. s = p @ [CHR 0x0A] \<and> accepted_form p"
    then obtain p l h t where "s = p @ [CHR 0x0A]" "p = l @ ''@'' @ h @ ''.'' @ t"
      and r: "l \<noteq> []" "list_all local_char l" "h \<noteq> []" "list_all label_char h"
         "t \<noteq> []" "list_all (\<lambda>c. label_char c \<or> c = CHR ''.'') t"
      unfolding accepted_form_def by blast
    then have "s = l @ ''@'' @ h @ ''.'' @ t @ [CHR 0x0A]" by simp
    with r show "[CHR 0x0A] \<in> set (match_items pattern s)"
      unfolding match_pattern_iff by blast
  qed
  ultimately show ?thesis by simp
qed

section \<open>The form of the specification is accepted\<close>

lemma split_on_not_Nil: "split_on c s \<noteq> []"
  by (induction s) (auto split: list.splits)

lemma split_on_first:
  "split_on c s = g # h # gs \<Longrightarrow> \<exists>rest. s = g @ [c] @ rest \<and> split_on c rest = h # gs"
proof (induction s arbitrary: g)
  case Nil
  then show ?case by simp
next
  case (Cons x xs)
  show ?case
  proof (cases "x = c")
    case True
    with Cons.prems show ?thesis by simp
  next
    case False
    with Cons.prems obtain g' where g': "split_on c xs = g' # h # gs" "g = x # g'"
      by (auto split: list.splits)
    from Cons.IH [OF g'(1)] obtain rest where "xs = g' @ [c] @ rest" "split_on c rest = h # gs"
      by blast
    with g' show ?thesis by simp
  qed
qed

lemma split_on_chars:
  "list_all (list_all P) (split_on c s) \<Longrightarrow> list_all (\<lambda>x. P x \<or> x = c) s"
proof (induction s)
  case Nil
  then show ?case by simp
next
  case (Cons x xs)
  then show ?case
    by (cases "split_on c xs") (auto simp: split_on_not_Nil split: if_splits)
qed

lemma spec_domain_shape:
  assumes "spec_domain d"
  shows "\<exists>h t. d = h @ ''.'' @ t \<and> h \<noteq> [] \<and> list_all label_char h \<and>
           t \<noteq> [] \<and> list_all (\<lambda>c. label_char c \<or> c = CHR ''.'') t"
proof -
  from assms obtain g h gs where sp: "split_on CHR ''.'' d = g # h # gs"
    by (cases "split_on CHR ''.'' d" rule: list.exhaust [case_names Nil Cons])
       (auto simp: spec_domain_def Suc_le_eq neq_Nil_conv)
  from assms sp have seg: "spec_segment g" "spec_segment h" "list_all spec_segment gs"
    by (simp_all add: spec_domain_def)
  from split_on_first [OF sp] obtain rest where d: "d = g @ ''.'' @ rest"
    and r: "split_on CHR ''.'' rest = h # gs" by auto
  from seg have "list_all (list_all label_char) (split_on CHR ''.'' rest)"
    unfolding r by (auto simp: spec_segment_def list_all_iff)
  then have chars: "list_all (\<lambda>c. label_char c \<or> c = CHR ''.'') rest" by (rule split_on_chars)
  from seg r have "rest \<noteq> []" by (auto simp: spec_segment_def)
  with d seg chars show ?thesis by (auto simp: spec_segment_def)
qed

lemma split_on_single: "split_on c s = [g] \<Longrightarrow> s = g"
proof (induction s arbitrary: g)
  case Nil
  then show ?case by simp
next
  case (Cons x xs)
  show ?case
  proof (cases "x = c")
    case True
    with Cons.prems show ?thesis by (simp add: split_on_not_Nil)
  next
    case False
    with Cons.prems obtain g' where g': "split_on c xs = [g']" "g = x # g'"
      by (auto simp: split_on_not_Nil split: list.splits)
    from Cons.IH [OF g'(1)] g'(2) show ?thesis by simp
  qed
qed

lemma spec_form_accepted: "spec_email_form s \<Longrightarrow> accepted_form s"
proof -
  assume a: "spec_email_form s"
  then obtain l d where sp: "split_on CHR ''@'' s = [l, d]"
    and ld: "spec_local_part l" "spec_domain d"
    by (auto simp: spec_email_form_def split: list.splits)
  from split_on_first [OF sp] obtain rest where s: "s = l @ ''@'' @ rest"
    and r: "split_on CHR ''@'' rest = [d]" by auto
  from r have "rest = d" by (rule split_on_single)
  moreover from spec_domain_shape [OF ld(2)] obtain h t where
    "d = h @ ''.'' @ t" "h \<noteq> []" "list_all label_char h"
    "t \<noteq> []" "list_all (\<lambda>c. label_char c \<or> c = CHR ''.'') t" by blast
  ultimately show ?thesis
    using s ld(1) unfolding accepted_form_def spec_local_part_def by blast
qed

section \<open>Trimming\<close>

lemma trimmed_strip: "trimmed (strip s)"
proof -
  define zs where "zs = dropWhile isspace s"
  define ys where "ys = dropWhile isspace (rev zs)"
  have st: "strip s = rev ys" by (simp add: strip_def ys_def zs_def)
  show ?thesis
  proof (cases "ys = []")
    case True
    with st show ?thesis by (simp add: trimmed_def)
  next
    case False
    then have h: "\<not> isspace (hd ys)" unfolding ys_def by (rule hd_dropWhile)
    from False have zs: "zs \<noteq> []" by (auto simp: ys_def)
    then have hz: "\<not> isspace (hd zs)" unfolding zs_def by (rule hd_dropWhile)
    have "rev zs = takeWhile isspace (rev zs) @ ys" by (simp add: ys_def)
    with False have "last (rev zs) = last ys" by (metis last_appendR)
    with zs have "last ys = hd zs" by (simp add: last_rev)
    with False h hz st show ?thesis by (simp add: trimmed_def hd_rev last_rev)
  qed
qed

lemma strip_trimmed: "trimmed v \<Longrightarrow> strip v = v"
proof (cases "v = []")
  case True
  then show ?thesis by (simp add: strip_def)
next
  case False
  assume "trimmed v"
  with False have h: "\<not> isspace (hd v)" "\<not> isspace (last v)" by (auto simp: trimmed_def)
  from False h have a: "dropWhile isspace v = v" by (cases v) auto
  from False h have b: "dropWhile isspace (rev v) = rev v"
    by (cases "rev v") (auto simp: last_rev [symmetric] hd_rev)
  show ?thesis by (simp add: strip_def a b)
qed

lemma strip_strip: "strip (strip s) = strip s"
  by (rule strip_trimmed) (rule trimmed_strip)

lemma strip_no_final_newline: "strip s \<noteq> p @ [CHR 0x0A]"
proof
  assume e: "strip s = p @ [CHR 0x0A]"
  have "trimmed (strip s)" by (rule trimmed_strip)
  with e have "\<not> isspace (CHR 0x0A)" by (simp add: trimmed_def)
  then show False by (simp add: isspace_def)
qed

lemma is_valid_email_strip: "is_valid_email (strip s) \<longleftrightarrow> accepted_form (strip s)"
  by (simp add: is_valid_email_iff strip_no_final_newline)

section \<open>The steps of a submission\<close>

lemma store_customer_cases:
  "store_customer f n b e p ad m a =
     (case connect_fault f of
        Some err \<Rightarrow> (Raised ''UnboundLocalError'', save_failed err a)
      | None \<Rightarrow>
         (case execute_insert f n b e p ad m (database a) of
            Inl err \<Rightarrow> (Returned, close_conn (save_failed err (connect a)))
          | Inr db \<Rightarrow>
             (case commit_fault f of
                Some err \<Rightarrow> (Returned, close_conn (save_failed err (connect a)))
              | None \<Rightarrow> (Returned,
                  a\<lparr>form := clear_form (form a), database := db,
                    messages := messages a @ [Showinfo ''Success'' ''Customer information saved successfully!''],
                    opened := Suc (opened a), closed := Suc (closed a)\<rparr>))))"
  by (simp add: store_customer_def Let_def connect_def close_conn_def notify_def save_failed_def
      split: option.splits sum.splits)

lemma submit_data_valid:
  assumes "strip (name_entry (form a)) \<noteq> []" "accepted_form (strip (email_entry (form a)))"
  shows "submit_data f a =
           store_customer f (strip (name_entry (form a))) (strip (birthday_entry (form a)))
             (strip (email_entry (form a))) (strip (phone_entry (form a)))
             (strip (address_entry (form a))) (contact_method_var (form a)) a"
proof -
  from assms(2) have "strip (email_entry (form a)) \<noteq> []"
    by (auto simp: accepted_form_def)
  with assms show ?thesis
    by (simp add: submit_data_def Let_def is_valid_email_strip)
qed

lemma submit_data_invalid:
  assumes "strip (name_entry (form a)) \<noteq> []" "strip (email_entry (form a)) \<noteq> []"
    "\<not> accepted_form (strip (email_entry (form a)))"
  shows "submit_data f a =
           (Returned,
            notify (Showwarning ''Validation Error'' ''Please enter a valid email address.'') a)"
  using assms by (simp add: submit_data_def Let_def is_valid_email_strip)

lemma strip_examples:
  "strip ''a@b.co'' = ''a@b.co''"
  "strip ''a@b'' = ''a@b''"
  "strip ''no-at-sign.com'' = ''no-at-sign.com''"
  "strip ''john.doe+tag@example.org'' = ''john.doe+tag@example.org''"
  "strip ''Jane Doe'' = ''Jane Doe''"
  "strip ''1990-01-01'' = ''1990-01-01''"
  "strip ''555-1234'' = ''555-1234''"
  "strip ''1 Main St'' = ''1 Main St''"
  by code_simp+

lemma strip_jane_email: "strip ''jane@example.com'' = ''jane@example.com''"
  by code_simp

lemma jane_email_valid: "is_valid_email ''jane@example.com''"
  by code_simp

lemma email_examples:
  "is_valid_email ''a@b.co''"
  "is_valid_email ''john.doe+tag@example.org''"
  "\<not> is_valid_email ''a@b''"
  "\<not> is_valid_email ''no-at-sign.com''"
  "\<not> is_valid_email ''a@.b''"
  "spec_email_form ''a@b.co''"
  "spec_email_form ''john.doe+tag@example.org''"
  by code_simp+

lemma customers_rows_update:
  "customers_rows (AList.update ''customers'' t db) = rows t"
  by (simp add: customers_rows_def update_conv')

lemma fold_max_ge: "(a::int) \<le> fold max xs a"
  by (induction xs arbitrary: a) (auto intro: order_trans [OF max.cobounded2])

lemma fold_max_member: "(x::int) \<in> set xs \<Longrightarrow> x \<le> fold max xs a"
proof (induction xs arbitrary: a)
  case Nil
  then show ?case by simp
next
  case (Cons y ys)
  show ?case
  proof (cases "x = y")
    case True
    have "max y a \<le> fold max ys (max y a)" by (rule fold_max_ge)
    with True show ?thesis by simp
  next
    case False
    with Cons.prems have "x \<in> set ys" by simp
    then show ?thesis by (simp add: Cons.IH)
  qed
qed

lemma next_rowid_fresh: "next_rowid t \<notin> id_col ` set (rows t)"
proof
  assume "next_rowid t \<in> id_col ` set (rows t)"
  then have "next_rowid t \<in> set (map id_col (rows t))" by simp
  then have "next_rowid t \<le> fold max (map id_col (rows t)) (max 0 (seq t))"
    by (rule fold_max_member)
  then show False by (simp add: next_rowid_def)
qed

lemma next_rowid_positive: "0 < next_rowid t"
proof -
  have "max 0 (seq t) \<le> fold max (map id_col (rows t)) (max 0 (seq t))" by (rule fold_max_ge)
  then show ?thesis by (simp add: next_rowid_def)
qed

lemma execute_insert_Inr:
  "execute_insert f n b e p ad m db = Inr db' \<longleftrightarrow>
     execute_fault f = None \<and>
     (\<exists>t. map_of db ''customers'' = Some t \<and>
        missing_columns (columns t)
          [''name'', ''birthday'', ''email'', ''phone'', ''address'', ''contact_method''] = [] \<and>
        not_null_violations (columns t)
          [(''name'', Some n), (''birthday'', Some b), (''email'', Some e), (''phone'', Some p),
           (''address'', Some ad), (''contact_method'', Some m)] = [] \<and>
        next_rowid t \<le> max_rowid \<and>
        db' = AList.update ''customers''
                (t\<lparr>rows := rows t @
                     [\<lparr>id_col = next_rowid t, name_col = Some n, birthday_col = Some b,
                       email_col = Some e, phone_col = Some p, address_col = Some ad,
                       contact_method_col = Some m\<rparr>],
                   seq := next_rowid t\<rparr>) db)"
  by (auto simp: execute_insert_def insert_into_customers_def Let_def
      split: option.splits list.splits)

lemma program_columns_named:
  "missing_columns customers_columns
     [''name'', ''birthday'', ''email'', ''phone'', ''address'', ''contact_method''] = []"
  by (simp add: missing_columns_def customers_columns_def)

lemma program_columns_not_null:
  "not_null_violations customers_columns
     [(''name'', n), (''birthday'', b), (''email'', e), (''phone'', p), (''address'', ad),
      (''contact_method'', m)] =
     (if n = None then [''name''] else []) @ (if e = None then [''email''] else [])"
  by (simp add: not_null_violations_def customers_columns_def bound_value_def rowid_alias_def)

lemma execute_insert_rows:
  assumes "execute_insert f n b e p ad m db = Inr db'"
  shows "customers_rows db' = customers_rows db @
           [\<lparr>id_col = next_rowid (the (map_of db ''customers'')), name_col = Some n,
             birthday_col = Some b, email_col = Some e, phone_col = Some p,
             address_col = Some ad, contact_method_col = Some m\<rparr>]"
  using assms unfolding execute_insert_Inr
  by (auto simp: customers_rows_update) (simp add: customers_rows_def)


lemma clear_form_empty: "clear_form w = empty_form"
  by (cases w) (simp add: clear_form_def empty_form_def)

lemma submit_data_checked:
  "validation_passes a \<Longrightarrow>
   submit_data f a =
     store_customer f (strip (name_entry (form a))) (strip (birthday_entry (form a)))
       (strip (email_entry (form a))) (strip (phone_entry (form a)))
       (strip (address_entry (form a))) (contact_method_var (form a)) a"
  by (simp add: validation_passes_def submit_data_def Let_def)

lemma submit_data_unchecked:
  "\<not> validation_passes a \<Longrightarrow>
   database (snd (submit_data f a)) = database a \<and> form (snd (submit_data f a)) = form a \<and>
   opened (snd (submit_data f a)) = opened a \<and> closed (snd (submit_data f a)) = closed a"
  by (auto simp: validation_passes_def submit_data_def Let_def notify_def)

section \<open>The email check\<close>

text \<open>
  C1, as amended. The email check passes exactly the texts \<open>l@h.t\<close>, or such a text
  followed by one line feed, where \<open>l\<close> is one or more letters, digits and \<^verbatim>\<open>_.+-\<close>,
  \<open>h\<close> is one or more letters, digits and hyphens, and \<open>t\<close> is one or more letters, digits,
  hyphens and dots. On a trimmed text the line feed cannot occur. Every text of the form
  that the specification describes passes. When the trimmed name and the trimmed email are
  not empty, \<open>submit_data\<close> goes on to store the record if the trimmed email has the form
  \<open>l@h.t\<close>, and otherwise returns with the warning that the email is not valid.
\<close>

theorem email_check_accepted_form:
  "(is_valid_email s \<longleftrightarrow> accepted_form s \<or> (\<exists>p. s = p @ [CHR 0x0A] \<and> accepted_form p)) \<and>
   (is_valid_email (strip s) \<longleftrightarrow> accepted_form (strip s)) \<and>
   (spec_email_form s \<longrightarrow> is_valid_email s) \<and>
   (strip (name_entry (form a)) \<noteq> [] \<and> strip (email_entry (form a)) \<noteq> [] \<longrightarrow>
      (if accepted_form (strip (email_entry (form a)))
       then submit_data f a =
              store_customer f (strip (name_entry (form a))) (strip (birthday_entry (form a)))
                (strip (email_entry (form a))) (strip (phone_entry (form a)))
                (strip (address_entry (form a))) (contact_method_var (form a)) a
       else submit_data f a =
              (Returned,
               notify (Showwarning ''Validation Error'' ''Please enter a valid email address.'')
                 a)))"
proof (intro conjI)
  show "is_valid_email s \<longleftrightarrow> accepted_form s \<or> (\<exists>p. s = p @ [CHR 0x0A] \<and> accepted_form p)"
    by (rule is_valid_email_iff)
  show "is_valid_email (strip s) \<longleftrightarrow> accepted_form (strip s)"
    by (rule is_valid_email_strip)
  show "spec_email_form s \<longrightarrow> is_valid_email s"
    by (auto simp: is_valid_email_iff dest: spec_form_accepted)
  show "strip (name_entry (form a)) \<noteq> [] \<and> strip (email_entry (form a)) \<noteq> [] \<longrightarrow>
      (if accepted_form (strip (email_entry (form a)))
       then submit_data f a =
              store_customer f (strip (name_entry (form a))) (strip (birthday_entry (form a)))
                (strip (email_entry (form a))) (strip (phone_entry (form a)))
                (strip (address_entry (form a))) (contact_method_var (form a)) a
       else submit_data f a =
              (Returned,
               notify (Showwarning ''Validation Error'' ''Please enter a valid email address.'')
                 a))"
    by (simp add: submit_data_valid submit_data_invalid)
qed

theorem email_check_accepted_form_witness:
  "accepted_form ''a@b.co'' \<and> accepted_form ''john.doe+tag@example.org'' \<and>
   \<not> accepted_form ''a@b'' \<and> \<not> accepted_form ''no-at-sign.com'' \<and>
   spec_email_form ''a@b.co'' \<and> is_valid_email ''a@b.co'' \<and> \<not> is_valid_email ''a@.b'' \<and>
   strip (name_entry (form (ready_app\<lparr>form := jane_form\<lparr>email_entry := ''a@b''\<rparr>\<rparr>))) \<noteq> [] \<and>
   strip (email_entry (form (ready_app\<lparr>form := jane_form\<lparr>email_entry := ''a@b''\<rparr>\<rparr>))) \<noteq> [] \<and>
   submit_data no_faults (ready_app\<lparr>form := jane_form\<lparr>email_entry := ''a@b''\<rparr>\<rparr>) =
     (Returned,
      notify (Showwarning ''Validation Error'' ''Please enter a valid email address.'')
        (ready_app\<lparr>form := jane_form\<lparr>email_entry := ''a@b''\<rparr>\<rparr>))"
proof -
  let ?a = "ready_app\<lparr>form := jane_form\<lparr>email_entry := ''a@b''\<rparr>\<rparr>"
  have n: "strip (name_entry (form ?a)) \<noteq> []" "strip (email_entry (form ?a)) \<noteq> []"
    by (simp_all add: jane_form_def strip_examples)
  have e: "email_entry (form ?a) = ''a@b''" by simp
  note t1 = email_check_accepted_form [of "''a@b.co''" ?a no_faults]
  note t2 = email_check_accepted_form [of "''john.doe+tag@example.org''" ?a no_faults]
  note t3 = email_check_accepted_form [of "''a@b''" ?a no_faults]
  note t4 = email_check_accepted_form [of "''no-at-sign.com''" ?a no_faults]
  from t1 have a1: "accepted_form ''a@b.co''" by (simp add: strip_examples email_examples)
  from t2 have a2: "accepted_form ''john.doe+tag@example.org''"
    by (simp add: strip_examples email_examples)
  from t3 have a3: "\<not> accepted_form ''a@b''" by (simp add: strip_examples email_examples)
  from t4 have a4: "\<not> accepted_form ''no-at-sign.com''"
    by (simp add: strip_examples email_examples)
  from t3 n a3 have "submit_data no_faults ?a =
     (Returned,
      notify (Showwarning ''Validation Error'' ''Please enter a valid email address.'') ?a)"
    by (simp add: strip_examples)
  with a1 a2 a3 a4 n show ?thesis by (simp add: email_examples)
qed

theorem email_form_counterexample:
  "is_valid_email ''a@b..c'' \<and> \<not> spec_email_form ''a@b..c'' \<and>
   customers_rows (database (snd (submit_data no_faults (ready_app\<lparr>form := jane_form\<lparr>email_entry := ''a@b..c''\<rparr>\<rparr>)))) =
     [\<lparr>id_col = 1, name_col = Some ''Jane Doe'', birthday_col = Some ''1990-01-01'',
       email_col = Some ''a@b..c'', phone_col = Some ''555-1234'', address_col = Some ''1 Main St'',
       contact_method_col = Some ''Phone''\<rparr>]"
  by code_simp

section \<open>Missing required fields\<close>

lemma strip_blank: "strip ''  '' = []"
  by (simp add: strip_def isspace_def)

text \<open>
  C2. Whenever the trimmed name or the trimmed email is empty, \<open>submit_data\<close> returns
  with the database as it was, nothing else changed either, and one more message shown:
  the warning that name and email are required.
\<close>

theorem submit_missing_required:
  assumes "strip (name_entry (form a)) = [] \<or> strip (email_entry (form a)) = []"
  shows "submit_data f a =
           (Returned,
            a\<lparr>messages := messages a @
               [Showwarning ''Validation Error'' ''Name and Email are required fields.'']\<rparr>) \<and>
         database (snd (submit_data f a)) = database a"
  using assms by (auto simp: submit_data_def notify_def Let_def)

theorem submit_missing_required_witness:
  "strip (name_entry (form (fresh_app\<lparr>form := jane_form\<lparr>name_entry := ''  ''\<rparr>\<rparr>))) = [] \<and>
   database (snd (submit_data no_faults (fresh_app\<lparr>form := jane_form\<lparr>name_entry := ''  ''\<rparr>\<rparr>))) = [] \<and>
   messages (snd (submit_data no_faults (fresh_app\<lparr>form := jane_form\<lparr>name_entry := ''  ''\<rparr>\<rparr>))) =
     [Showwarning ''Validation Error'' ''Name and Email are required fields.'']"
proof -
  let ?a = "fresh_app\<lparr>form := jane_form\<lparr>name_entry := ''  ''\<rparr>\<rparr>"
  have h: "strip (name_entry (form ?a)) = [] \<or> strip (email_entry (form ?a)) = []"
    by (simp add: strip_blank)
  from submit_missing_required [OF h, of no_faults] h show ?thesis
    by (simp add: fresh_app_def strip_blank)
qed

section \<open>After the insert\<close>

lemma jane_passes: "validation_passes (a\<lparr>form := jane_form\<rparr>)"
  by (simp add: validation_passes_def jane_form_def strip_examples)
     (simp add: strip_jane_email jane_email_valid)

lemma ready_database:
  "database ready_app = [(''customers'', \<lparr>columns = customers_columns, rows = [], seq = 0\<rparr>)]"
  by (simp add: ready_app_def setup_database_def no_faults_def fresh_app_def connect_def
      close_conn_def create_table_if_not_exists_def Let_def)

text \<open>
  C5. When the submission passes the guards and the \<^verbatim>\<open>try\<close> statement meets no error, one
  row has been added, the five entries are empty and the selection reads \<open>Email\<close>;
  and whenever \<open>submit_data\<close> has changed the database at all, the form is in that state.
\<close>

theorem committed_insert_clears_form:
  "(validation_passes a \<and> storage_failure f a = None \<longrightarrow>
      form (snd (submit_data f a)) = empty_form \<and>
      length (customers_rows (database (snd (submit_data f a)))) =
        Suc (length (customers_rows (database a)))) \<and>
   (database (snd (submit_data f a)) \<noteq> database a \<longrightarrow>
      form (snd (submit_data f a)) = empty_form)"
proof (intro conjI impI)
  assume h: "validation_passes a \<and> storage_failure f a = None"
  then obtain db where db: "connect_fault f = None" "commit_fault f = None"
    "execute_insert f (strip (name_entry (form a))) (strip (birthday_entry (form a)))
       (strip (email_entry (form a))) (strip (phone_entry (form a)))
       (strip (address_entry (form a))) (contact_method_var (form a)) (database a) = Inr db"
    by (auto simp: storage_failure_def split: option.splits sum.splits)
  from h have eq: "submit_data f a =
     store_customer f (strip (name_entry (form a))) (strip (birthday_entry (form a)))
       (strip (email_entry (form a))) (strip (phone_entry (form a)))
       (strip (address_entry (form a))) (contact_method_var (form a)) a"
    by (simp add: submit_data_checked)
  from db show "form (snd (submit_data f a)) = empty_form"
    unfolding eq store_customer_cases by (simp add: clear_form_empty)
  from db show "length (customers_rows (database (snd (submit_data f a)))) =
        Suc (length (customers_rows (database a)))"
    unfolding eq store_customer_cases by (simp add: execute_insert_rows [OF db(3)])
next
  assume ch: "database (snd (submit_data f a)) \<noteq> database a"
  then have v: "validation_passes a" using submit_data_unchecked [of a f] by blast
  from ch show "form (snd (submit_data f a)) = empty_form"
    unfolding submit_data_checked [OF v] store_customer_cases
    by (auto simp: save_failed_def notify_def connect_def close_conn_def clear_form_empty
        split: option.splits sum.splits)
qed


theorem committed_insert_clears_form_witness:
  "validation_passes (ready_app\<lparr>form := jane_form\<rparr>) \<and>
   storage_failure no_faults (ready_app\<lparr>form := jane_form\<rparr>) = None \<and>
   database (snd (submit_data no_faults (ready_app\<lparr>form := jane_form\<rparr>))) \<noteq> database ready_app \<and>
   form (snd (submit_data no_faults (ready_app\<lparr>form := jane_form\<rparr>))) =
     \<lparr>name_entry = [], birthday_entry = [], email_entry = [], phone_entry = [],
      address_entry = [], contact_method_var = ''Email''\<rparr>"
proof -
  let ?a = "ready_app\<lparr>form := jane_form\<rparr>"
  have v: "validation_passes ?a" by (rule jane_passes)
  have s: "storage_failure no_faults ?a = None"
    by (simp add: storage_failure_def no_faults_def execute_insert_def insert_into_customers_def
        program_columns_named program_columns_not_null ready_database next_rowid_def
        max_rowid_def Let_def)
  from committed_insert_clears_form [of ?a no_faults] v s
  have f: "form (snd (submit_data no_faults ?a)) = empty_form"
    and l: "length (customers_rows (database (snd (submit_data no_faults ?a)))) =
              Suc (length (customers_rows (database ?a)))"
    by simp_all
  from l have "database (snd (submit_data no_faults ?a)) \<noteq> database ready_app" by auto
  with v s f show ?thesis by (simp add: empty_form_def)
qed

section \<open>A storage failure\<close>

text \<open>
  C6. When the submission passes the guards and the \<^verbatim>\<open>try\<close> statement meets an error, the
  form holds what it held, the database is as it was, and the message shown last is the
  error box whose text ends with the detail of the error.
\<close>

theorem storage_failure_keeps_form:
  assumes "validation_passes a" and "storage_failure f a = Some e"
  shows "form (snd (submit_data f a)) = form a \<and>
         database (snd (submit_data f a)) = database a \<and>
         messages (snd (submit_data f a)) =
           messages a @ [Showerror ''Database Error'' (''Failed to save data: '' @ e)]"
  using assms(2) unfolding submit_data_checked [OF assms(1)] store_customer_cases
  by (auto simp: storage_failure_def save_failed_def notify_def connect_def close_conn_def
      split: option.splits sum.splits)


theorem storage_failure_keeps_form_witness:
  "validation_passes (fresh_app\<lparr>form := jane_form\<rparr>) \<and>
   storage_failure no_faults (fresh_app\<lparr>form := jane_form\<rparr>) = Some ''no such table: customers'' \<and>
   form (snd (submit_data no_faults (fresh_app\<lparr>form := jane_form\<rparr>))) = jane_form \<and>
   messages (snd (submit_data no_faults (fresh_app\<lparr>form := jane_form\<rparr>))) =
     [Showerror ''Database Error'' ''Failed to save data: no such table: customers''] \<and>
   storage_failure unable_to_open (ready_app\<lparr>form := jane_form\<rparr>) =
     Some ''unable to open database file'' \<and>
   form (snd (submit_data unable_to_open (ready_app\<lparr>form := jane_form\<rparr>))) = jane_form \<and>
   messages (snd (submit_data unable_to_open (ready_app\<lparr>form := jane_form\<rparr>))) =
     messages ready_app @
     [Showerror ''Database Error'' ''Failed to save data: unable to open database file'']"
proof -
  let ?a = "fresh_app\<lparr>form := jane_form\<rparr>"
  let ?b = "ready_app\<lparr>form := jane_form\<rparr>"
  have va: "validation_passes ?a" and vb: "validation_passes ?b" by (rule jane_passes)+
  have sa: "storage_failure no_faults ?a = Some ''no such table: customers''"
    by (simp add: storage_failure_def no_faults_def execute_insert_def insert_into_customers_def
        fresh_app_def)
  have sb: "storage_failure unable_to_open ?b = Some ''unable to open database file''"
    by (simp add: storage_failure_def unable_to_open_def)
  from storage_failure_keeps_form [OF va sa] storage_failure_keeps_form [OF vb sb] va sa sb
  show ?thesis by (simp add: fresh_app_def)
qed

section \<open>The end-to-end submission\<close>

text \<open>
  C4. With a form whose trimmed entries are \<open>Jane Doe\<close>, \<open>1990-01-01\<close>,
  \<open>jane@example.com\<close>, \<open>555-1234\<close> and \<open>1 Main St\<close> and whose selection is \<open>Phone\<close>, a
  customers table with the columns of the program's statement that can still give out an
  id, and no fault of the storage engine,
  \<open>submit_data\<close> returns with exactly one row added after the rows there were, holding
  those values and an id that no earlier row has, with the success box as the one new
  message, and with the form cleared.
\<close>

theorem submit_jane_doe:
  assumes "strip (name_entry (form a)) = ''Jane Doe''"
    and "strip (birthday_entry (form a)) = ''1990-01-01''"
    and "strip (email_entry (form a)) = ''jane@example.com''"
    and "strip (phone_entry (form a)) = ''555-1234''"
    and "strip (address_entry (form a)) = ''1 Main St''"
    and "contact_method_var (form a) = ''Phone''"
    and "map_of (database a) ''customers'' = Some t"
    and "columns t = customers_columns"
    and "next_rowid t \<le> max_rowid"
  shows "fst (submit_data no_faults a) = Returned \<and>
         customers_rows (database (snd (submit_data no_faults a))) =
           customers_rows (database a) @
           [\<lparr>id_col = next_rowid t, name_col = Some ''Jane Doe'',
             birthday_col = Some ''1990-01-01'', email_col = Some ''jane@example.com'',
             phone_col = Some ''555-1234'', address_col = Some ''1 Main St'',
             contact_method_col = Some ''Phone''\<rparr>] \<and>
         next_rowid t \<notin> id_col ` set (customers_rows (database a)) \<and>
         messages (snd (submit_data no_faults a)) =
           messages a @ [Showinfo ''Success'' ''Customer information saved successfully!''] \<and>
         form (snd (submit_data no_faults a)) =
           \<lparr>name_entry = [], birthday_entry = [], email_entry = [], phone_entry = [],
            address_entry = [], contact_method_var = ''Email''\<rparr>"
proof -
  have v: "validation_passes a"
    by (simp add: validation_passes_def assms jane_email_valid)
  let ?row = "\<lparr>id_col = next_rowid t, name_col = Some ''Jane Doe'',
             birthday_col = Some ''1990-01-01'', email_col = Some ''jane@example.com'',
             phone_col = Some ''555-1234'', address_col = Some ''1 Main St'',
             contact_method_col = Some ''Phone''\<rparr>"
  let ?db = "AList.update ''customers'' (t\<lparr>rows := rows t @ [?row], seq := next_rowid t\<rparr>) (database a)"
  have ex: "execute_insert no_faults ''Jane Doe'' ''1990-01-01'' ''jane@example.com'' ''555-1234''
              ''1 Main St'' ''Phone'' (database a) = Inr ?db"
    unfolding execute_insert_Inr using assms(7-9)
    by (simp add: no_faults_def program_columns_named program_columns_not_null)
  have r: "customers_rows (database a) = rows t"
    using assms(7) by (simp add: customers_rows_def)
  have eq: "submit_data no_faults a =
     (Returned,
      a\<lparr>form := clear_form (form a), database := ?db,
        messages := messages a @ [Showinfo ''Success'' ''Customer information saved successfully!''],
        opened := Suc (opened a), closed := Suc (closed a)\<rparr>)"
    unfolding submit_data_checked [OF v] store_customer_cases assms(1-6) ex
    by (simp add: no_faults_def)
  show ?thesis
    unfolding eq r
    by (simp add: customers_rows_update next_rowid_fresh clear_form_empty empty_form_def)
qed

theorem submit_jane_doe_witness:
  "customers_rows (database (snd (submit_data no_faults
      (ready_app\<lparr>form := jane_form\<lparr>name_entry := ''  Jane Doe ''\<rparr>\<rparr>)))) =
     [\<lparr>id_col = 1, name_col = Some ''Jane Doe'', birthday_col = Some ''1990-01-01'',
       email_col = Some ''jane@example.com'', phone_col = Some ''555-1234'',
       address_col = Some ''1 Main St'', contact_method_col = Some ''Phone''\<rparr>] \<and>
   messages (snd (submit_data no_faults
      (ready_app\<lparr>form := jane_form\<lparr>name_entry := ''  Jane Doe ''\<rparr>\<rparr>))) =
     [Showinfo ''Success'' ''Customer information saved successfully!''] \<and>
   form (snd (submit_data no_faults
      (ready_app\<lparr>form := jane_form\<lparr>name_entry := ''  Jane Doe ''\<rparr>\<rparr>))) =
     \<lparr>name_entry = [], birthday_entry = [], email_entry = [], phone_entry = [],
      address_entry = [], contact_method_var = ''Email''\<rparr>"
proof -
  let ?a = "ready_app\<lparr>form := jane_form\<lparr>name_entry := ''  Jane Doe ''\<rparr>\<rparr>"
  let ?t = "\<lparr>columns = customers_columns, rows = [], seq = 0\<rparr>"
  have p: "strip ''  Jane Doe '' = ''Jane Doe''" by code_simp
  have h: "strip (name_entry (form ?a)) = ''Jane Doe''"
    "strip (birthday_entry (form ?a)) = ''1990-01-01''"
    "strip (email_entry (form ?a)) = ''jane@example.com''"
    "strip (phone_entry (form ?a)) = ''555-1234''"
    "strip (address_entry (form ?a)) = ''1 Main St''"
    "contact_method_var (form ?a) = ''Phone''"
    by (simp_all add: jane_form_def p strip_examples strip_jane_email)
  have t: "map_of (database ?a) ''customers'' = Some ?t" by (simp add: ready_database)
  have c: "columns ?t = customers_columns" by simp
  have n: "next_rowid ?t \<le> max_rowid" by (simp add: next_rowid_def max_rowid_def)
  have m: "messages ready_app = []"
    by (simp add: ready_app_def setup_database_def no_faults_def fresh_app_def connect_def
      close_conn_def Let_def)
  from submit_jane_doe [OF h t c n] show ?thesis
    by (simp add: customers_rows_def ready_database next_rowid_def m)
qed


section \<open>Initialising the table twice\<close>

lemma count_tables_zero: "count_tables n db = 0 \<longleftrightarrow> map_of db n = None"
  by (induction db) (auto simp: count_tables_def)

lemma count_tables_create:
  "count_tables n (create_table_if_not_exists n cols db) =
     (if map_of db n = None then 1 else count_tables n db)"
  using count_tables_zero [of n db]
  by (auto simp: create_table_if_not_exists_def count_tables_def)

lemma map_of_create:
  "map_of (create_table_if_not_exists n cols db) n =
     (case map_of db n of None \<Rightarrow> Some \<lparr>columns = cols, rows = [], seq = 0\<rparr> | Some t \<Rightarrow> Some t)"
  by (auto simp: create_table_if_not_exists_def map_add_def split: option.splits)

lemma create_twice:
  "create_table_if_not_exists n cols (create_table_if_not_exists n cols db) =
     create_table_if_not_exists n cols db"
proof -
  have "map_of (create_table_if_not_exists n cols db) n \<noteq> None"
    by (simp add: map_of_create split: option.splits)
  then show ?thesis
    by (auto simp: create_table_if_not_exists_def [of n cols "create_table_if_not_exists n cols db"])
qed

lemma setup_database_no_faults:
  "setup_database no_faults a =
     (Returned,
      a\<lparr>database := create_table_if_not_exists ''customers'' customers_columns (database a),
        opened := Suc (opened a), closed := Suc (closed a)\<rparr>)"
  by (simp add: setup_database_def no_faults_def connect_def close_conn_def Let_def)

text \<open>
  C8. When the storage engine raises no fault, \<open>setup_database\<close> run twice in a row returns
  both times, shows no message and leaves the window alone; the second run leaves the
  database exactly as the first left it, so it adds no table named \<open>customers\<close> and
  changes no schema. If there was at most one such table before, there is exactly one
  after; one that the first run created has the columns of the program's statement, and
  one that was there before is not touched by either run.
\<close>

theorem setup_database_idempotent:
  "fst (setup_database no_faults a) = Returned \<and>
   fst (setup_database no_faults (snd (setup_database no_faults a))) = Returned \<and>
   database (snd (setup_database no_faults (snd (setup_database no_faults a)))) =
     database (snd (setup_database no_faults a)) \<and>
   messages (snd (setup_database no_faults (snd (setup_database no_faults a)))) = messages a \<and>
   window_alive (snd (setup_database no_faults (snd (setup_database no_faults a)))) =
     window_alive a \<and>
   count_tables ''customers''
       (database (snd (setup_database no_faults (snd (setup_database no_faults a))))) =
     count_tables ''customers'' (database (snd (setup_database no_faults a))) \<and>
   (count_tables ''customers'' (database a) \<le> 1 \<longrightarrow>
      count_tables ''customers''
        (database (snd (setup_database no_faults (snd (setup_database no_faults a))))) = 1) \<and>
   (map_of (database a) ''customers'' = None \<longrightarrow>
      map_of (database (snd (setup_database no_faults (snd (setup_database no_faults a)))))
        ''customers'' = Some \<lparr>columns = customers_columns, rows = [], seq = 0\<rparr>) \<and>
   (map_of (database a) ''customers'' \<noteq> None \<longrightarrow>
      database (snd (setup_database no_faults (snd (setup_database no_faults a)))) =
        database a)"
proof -
  let ?db = "database a"
  let ?db1 = "create_table_if_not_exists ''customers'' customers_columns ?db"
  have s1: "setup_database no_faults a =
      (Returned, a\<lparr>database := ?db1, opened := Suc (opened a), closed := Suc (closed a)\<rparr>)"
    by (rule setup_database_no_faults)
  have s2: "setup_database no_faults (snd (setup_database no_faults a)) =
      (Returned,
       a\<lparr>database := ?db1, opened := Suc (Suc (opened a)), closed := Suc (Suc (closed a))\<rparr>)"
    by (simp add: setup_database_no_faults create_twice)
  have c: "count_tables ''customers'' ?db \<le> 1 \<longrightarrow> count_tables ''customers'' ?db1 = 1"
    using count_tables_zero [of "''customers''" ?db] by (auto simp: count_tables_create)
  have n: "map_of ?db ''customers'' = None \<longrightarrow>
      map_of ?db1 ''customers'' = Some \<lparr>columns = customers_columns, rows = [], seq = 0\<rparr>"
    by (simp add: map_of_create)
  have e: "map_of ?db ''customers'' \<noteq> None \<longrightarrow> ?db1 = ?db"
    by (auto simp: create_table_if_not_exists_def)
  from c n e show ?thesis unfolding s2 unfolding s1 by simp
qed

theorem setup_database_idempotent_witness:
  "count_tables ''customers'' (database fresh_app) \<le> 1 \<and>
   map_of (database fresh_app) ''customers'' = None \<and>
   map_of (database ready_app) ''customers'' \<noteq> None \<and>
   database (snd (setup_database no_faults (snd (setup_database no_faults fresh_app)))) =
     [(''customers'', \<lparr>columns = customers_columns, rows = [], seq = 0\<rparr>)] \<and>
   count_tables ''customers''
     (database (snd (setup_database no_faults (snd (setup_database no_faults fresh_app))))) = 1 \<and>
   database (snd (setup_database no_faults (snd (setup_database no_faults ready_app)))) =
     database ready_app"
proof -
  have c: "count_tables ''customers'' (database fresh_app) \<le> 1"
    and n: "map_of (database fresh_app) ''customers'' = None"
    by (simp_all add: fresh_app_def count_tables_def)
  have r: "map_of (database ready_app) ''customers'' \<noteq> None" by (simp add: ready_database)
  from setup_database_idempotent [of fresh_app] setup_database_idempotent [of ready_app] c n r
  show ?thesis
    by (simp add: ready_database ready_app_def [symmetric])
qed

section \<open>Connections\<close>

text \<open>
  C9, as amended. A call of \<open>setup_database\<close>, or of the \<^verbatim>\<open>try\<close> statement of
  \<open>submit_data\<close>, in which \<^verbatim>\<open>sqlite3.connect\<close> succeeds opens exactly one connection and
  closes exactly one before it returns, whether the statement and the commit succeed or
  fail. A call in which \<^verbatim>\<open>sqlite3.connect\<close> fails opens no connection and closes none.
\<close>

theorem connection_released:
  "(connect_fault f = None \<longrightarrow>
      fst (setup_database f a) = Returned \<and>
      opened (snd (setup_database f a)) = Suc (opened a) \<and>
      closed (snd (setup_database f a)) = Suc (closed a)) \<and>
   (connect_fault f = None \<longrightarrow>
      fst (store_customer f n b e p ad m a) = Returned \<and>
      opened (snd (store_customer f n b e p ad m a)) = Suc (opened a) \<and>
      closed (snd (store_customer f n b e p ad m a)) = Suc (closed a)) \<and>
   (connect_fault f \<noteq> None \<longrightarrow>
      opened (snd (setup_database f a)) = opened a \<and>
      closed (snd (setup_database f a)) = closed a \<and>
      opened (snd (store_customer f n b e p ad m a)) = opened a \<and>
      closed (snd (store_customer f n b e p ad m a)) = closed a)"
  by (auto simp: setup_database_def store_customer_cases setup_failed_def save_failed_def
      notify_def root_destroy_def connect_def close_conn_def Let_def
      split: option.splits sum.splits)

theorem connection_released_witness:
  "connect_fault no_faults = None \<and> connect_fault unable_to_open \<noteq> None \<and>
   opened (snd (setup_database no_faults fresh_app)) = 1 \<and>
   closed (snd (setup_database no_faults fresh_app)) = 1 \<and>
   opened (snd (store_customer unable_to_open ''Jane Doe'' [] ''jane@example.com'' [] [] ''Email''
                  ready_app)) = opened ready_app \<and>
   closed (snd (store_customer unable_to_open ''Jane Doe'' [] ''jane@example.com'' [] [] ''Email''
                  ready_app)) = closed ready_app"
proof -
  have h: "connect_fault no_faults = None" "connect_fault unable_to_open \<noteq> None"
    by (simp_all add: no_faults_def unable_to_open_def)
  from connection_released [of no_faults fresh_app]
    connection_released [of unable_to_open ready_app "''Jane Doe''" "[]" "''jane@example.com''"
      "[]" "[]" "''Email''"] h
  show ?thesis by (simp add: fresh_app_def)
qed

theorem connection_counterexample:
  "fst (setup_database unable_to_open fresh_app) = Raised ''UnboundLocalError'' \<and>
   opened (snd (setup_database unable_to_open fresh_app)) = opened fresh_app \<and>
   closed (snd (setup_database unable_to_open fresh_app)) = closed fresh_app \<and>
   fst (submit_data unable_to_open (ready_app\<lparr>form := jane_form\<rparr>)) = Raised ''UnboundLocalError'' \<and>
   opened (snd (submit_data unable_to_open (ready_app\<lparr>form := jane_form\<rparr>))) = opened ready_app"
  by (simp add: submit_data_checked [OF jane_passes] store_customer_cases setup_database_def
      unable_to_open_def setup_failed_def save_failed_def notify_def root_destroy_def)


section \<open>What a run of the program stores\<close>

lemma customers_rows_create:
  "customers_rows (create_table_if_not_exists ''customers'' cols db) = customers_rows db"
  by (simp add: customers_rows_def map_of_create split: option.splits)

lemma setup_database_rows:
  "customers_rows (database (snd (setup_database f a))) = customers_rows (database a) \<and>
   form (snd (setup_database f a)) = form a"
  by (simp add: setup_database_def setup_failed_def notify_def root_destroy_def connect_def
      close_conn_def Let_def customers_rows_create split: option.splits)

lemma submit_data_rows:
  "(customers_rows (database (snd (submit_data f a))) = customers_rows (database a) \<and>
    form (snd (submit_data f a)) = form a) \<or>
   (\<exists>i. customers_rows (database (snd (submit_data f a))) =
          customers_rows (database a) @ [bound_row i (form a)] \<and>
        validation_passes a \<and> form (snd (submit_data f a)) = empty_form)"
proof (cases "validation_passes a")
  case False
  then show ?thesis using submit_data_unchecked [of a f] by simp
next
  case True
  let ?e = "execute_insert f (strip (name_entry (form a))) (strip (birthday_entry (form a)))
       (strip (email_entry (form a))) (strip (phone_entry (form a)))
       (strip (address_entry (form a))) (contact_method_var (form a)) (database a)"
  show ?thesis
  proof (cases "connect_fault f = None \<and> commit_fault f = None \<and> (\<exists>db. ?e = Inr db)")
    case False
    then have "customers_rows (database (snd (submit_data f a))) = customers_rows (database a) \<and>
      form (snd (submit_data f a)) = form a"
      unfolding submit_data_checked [OF True] store_customer_cases
      by (auto simp: save_failed_def notify_def connect_def close_conn_def
          split: option.splits sum.splits)
    then show ?thesis by simp
  next
    case ok: True
    then obtain db where db: "?e = Inr db" by blast
    from execute_insert_rows [OF db]
    have "customers_rows db = customers_rows (database a) @
            [bound_row (next_rowid (the (map_of (database a) ''customers''))) (form a)]"
      by (simp add: bound_row_def)
    with ok db True show ?thesis
      unfolding submit_data_checked [OF True] store_customer_cases
      by (auto simp: clear_form_empty)
  qed
qed

lemma bound_row_valid: "validation_passes a \<Longrightarrow> valid_row (bound_row i (form a))"
  by (simp add: validation_passes_def valid_row_def bound_row_def is_valid_email_strip)

lemma handle_rows:
  "\<exists>new. customers_rows (database (handle ev a)) = customers_rows (database a) @ new \<and>
     list_all valid_row new \<and>
     (contact_method_var (form a) \<in> set contact_options \<longrightarrow>
        list_all offered_method new \<and>
        contact_method_var (form (handle ev a)) \<in> set contact_options)"
proof (cases ev)
  case (Edit e v)
  then show ?thesis by (cases e) simp_all
next
  case (Select v)
  then show ?thesis by simp
next
  case (Submit f)
  from submit_data_rows [of f a] show ?thesis
  proof
    assume "customers_rows (database (snd (submit_data f a))) = customers_rows (database a) \<and>
      form (snd (submit_data f a)) = form a"
    with Submit show ?thesis by simp
  next
    assume "\<exists>i. customers_rows (database (snd (submit_data f a))) =
          customers_rows (database a) @ [bound_row i (form a)] \<and>
        validation_passes a \<and> form (snd (submit_data f a)) = empty_form"
    then obtain i where i: "customers_rows (database (snd (submit_data f a))) =
          customers_rows (database a) @ [bound_row i (form a)]"
      "validation_passes a" "form (snd (submit_data f a)) = empty_form" by blast
    have "list_all valid_row [bound_row i (form a)]"
      using i(2) by (simp add: bound_row_valid)
    moreover have "contact_method_var (form a) \<in> set contact_options \<longrightarrow>
        list_all offered_method [bound_row i (form a)] \<and>
        contact_method_var (form (handle ev a)) \<in> set contact_options"
      using Submit i(3) by (simp add: offered_method_def bound_row_def empty_form_def contact_options_def)
    ultimately show ?thesis using Submit i(1) by auto
  qed
next
  case (Setup f)
  with setup_database_rows [of f a] show ?thesis by simp
qed

lemma run_rows:
  "\<exists>new. customers_rows (database (run evs a)) = customers_rows (database a) @ new \<and>
     list_all valid_row new \<and>
     (contact_method_var (form a) \<in> set contact_options \<longrightarrow>
        list_all offered_method new \<and>
        contact_method_var (form (run evs a)) \<in> set contact_options)"
proof (induction evs arbitrary: a)
  case Nil
  then show ?case by (simp add: run_def)
next
  case (Cons ev evs)
  from handle_rows [of ev a] obtain n1 where
    n1: "customers_rows (database (handle ev a)) = customers_rows (database a) @ n1"
      "list_all valid_row n1"
      "contact_method_var (form a) \<in> set contact_options \<longrightarrow>
        list_all offered_method n1 \<and>
        contact_method_var (form (handle ev a)) \<in> set contact_options" by blast
  from Cons.IH [of "handle ev a"] obtain n2 where
    n2: "customers_rows (database (run evs (handle ev a))) =
           customers_rows (database (handle ev a)) @ n2"
      "list_all valid_row n2"
      "contact_method_var (form (handle ev a)) \<in> set contact_options \<longrightarrow>
        list_all offered_method n2 \<and>
        contact_method_var (form (run evs (handle ev a))) \<in> set contact_options" by blast
  have r: "run (ev # evs) a = run evs (handle ev a)" by (simp add: run_def)
  from n1 n2 have "customers_rows (database (run (ev # evs) a)) =
      customers_rows (database a) @ (n1 @ n2) \<and> list_all valid_row (n1 @ n2) \<and>
     (contact_method_var (form a) \<in> set contact_options \<longrightarrow>
        list_all offered_method (n1 @ n2) \<and>
        contact_method_var (form (run (ev # evs) a)) \<in> set contact_options)"
    unfolding r by simp
  then show ?case by blast
qed

section \<open>Trimmed values\<close>

lemma trimmed_bound_row:
  "trimmed_value (name_col (bound_row i w))"
  "trimmed_value (birthday_col (bound_row i w))"
  "trimmed_value (email_col (bound_row i w))"
  "trimmed_value (phone_col (bound_row i w))"
  "trimmed_value (address_col (bound_row i w))"
  by (simp_all add: trimmed_value_def bound_row_def trimmed_strip)

lemma trimmed_options: "m \<in> set contact_options \<Longrightarrow> trimmed m"
  by (auto simp: contact_options_def trimmed_def isspace_def)

lemma submit_data_same_trimmed:
  assumes "same_trimmed w w'"
  shows "fst (submit_data f (a\<lparr>form := w\<rparr>)) = fst (submit_data f (a\<lparr>form := w'\<rparr>)) \<and>
         database (snd (submit_data f (a\<lparr>form := w\<rparr>))) =
           database (snd (submit_data f (a\<lparr>form := w'\<rparr>))) \<and>
         messages (snd (submit_data f (a\<lparr>form := w\<rparr>))) =
           messages (snd (submit_data f (a\<lparr>form := w'\<rparr>)))"
  using assms
  by (simp add: same_trimmed_def submit_data_def Let_def store_customer_cases notify_def
      save_failed_def connect_def close_conn_def split: option.splits sum.splits)

text \<open>
  C7. \<open>submit_data\<close> either leaves the rows of the customers table as they are or adds
  exactly one row, the one bound from the trimmed entries of the form. In that row the
  name, birthday, email, phone and address have no whitespace at either end, and neither
  has the contact method when the selection is one of the options of the combobox. Two
  forms that differ only in the whitespace around their entries are treated alike: same
  outcome, same database, same messages, so the checks see trimmed values only.
\<close>

theorem stored_values_trimmed:
  "(customers_rows (database (snd (submit_data f a))) = customers_rows (database a) \<or>
    (\<exists>i. customers_rows (database (snd (submit_data f a))) =
           customers_rows (database a) @ [bound_row i (form a)])) \<and>
   trimmed_value (name_col (bound_row i w)) \<and>
   trimmed_value (birthday_col (bound_row i w)) \<and>
   trimmed_value (email_col (bound_row i w)) \<and>
   trimmed_value (phone_col (bound_row i w)) \<and>
   trimmed_value (address_col (bound_row i w)) \<and>
   (contact_method_var w \<in> set contact_options \<longrightarrow>
      trimmed_value (contact_method_col (bound_row i w))) \<and>
   (same_trimmed w w' \<longrightarrow>
      fst (submit_data f (a\<lparr>form := w\<rparr>)) = fst (submit_data f (a\<lparr>form := w'\<rparr>)) \<and>
      database (snd (submit_data f (a\<lparr>form := w\<rparr>))) =
        database (snd (submit_data f (a\<lparr>form := w'\<rparr>))) \<and>
      messages (snd (submit_data f (a\<lparr>form := w\<rparr>))) =
        messages (snd (submit_data f (a\<lparr>form := w'\<rparr>))))"
proof -
  have 1: "customers_rows (database (snd (submit_data f a))) = customers_rows (database a) \<or>
    (\<exists>i. customers_rows (database (snd (submit_data f a))) =
           customers_rows (database a) @ [bound_row i (form a)])"
    using submit_data_rows [of f a] by blast
  have 2: "contact_method_var w \<in> set contact_options \<longrightarrow>
      trimmed_value (contact_method_col (bound_row i w))"
    by (simp add: trimmed_value_def bound_row_def trimmed_options)
  from 1 2 show ?thesis
    by (simp add: trimmed_bound_row submit_data_same_trimmed)
qed

lemma padded_same: "same_trimmed padded_form jane_form"
  by code_simp

theorem stored_values_trimmed_witness:
  "same_trimmed padded_form jane_form \<and>
   contact_method_var padded_form \<in> set contact_options \<and>
   database (snd (submit_data no_faults (ready_app\<lparr>form := padded_form\<rparr>))) =
     database (snd (submit_data no_faults (ready_app\<lparr>form := jane_form\<rparr>))) \<and>
   bound_row 1 padded_form =
     \<lparr>id_col = 1, name_col = Some ''Jane Doe'', birthday_col = Some ''1990-01-01'',
       email_col = Some ''jane@example.com'', phone_col = Some ''555-1234'',
       address_col = Some ''1 Main St'', contact_method_col = Some ''Phone''\<rparr> \<and>
   trimmed_value (contact_method_col (bound_row 1 padded_form)) \<and>
   trimmed_value (name_col (bound_row 1 padded_form))"
proof -
  have s: "same_trimmed padded_form jane_form" by (rule padded_same)
  have c: "contact_method_var padded_form \<in> set contact_options"
    by (simp add: padded_form_def contact_options_def)
  have b: "bound_row 1 padded_form =
     \<lparr>id_col = 1, name_col = Some ''Jane Doe'', birthday_col = Some ''1990-01-01'',
       email_col = Some ''jane@example.com'', phone_col = Some ''555-1234'',
       address_col = Some ''1 Main St'', contact_method_col = Some ''Phone''\<rparr>"
    by code_simp
  from stored_values_trimmed [of no_faults ready_app 1 padded_form jane_form] s c b
  show ?thesis by simp
qed

section \<open>Stored records\<close>

text \<open>
  C3, as amended. Whatever the user and the program do, in any order and under any faults
  of the storage engine (editing entries, selecting, submitting, setting the database up),
  the rows that were in the customers table are still there afterwards, unchanged and in
  place, and every row that came after them has a name that is not empty and an email of
  the form \<open>l@h.t\<close> that the pattern describes: \<open>l\<close> one or more letters, digits and
  \<^verbatim>\<open>_.+-\<close>, \<open>h\<close> one or more letters, digits and hyphens, \<open>t\<close> one or more letters,
  digits, hyphens and dots.
\<close>

theorem stored_rows_valid_and_kept:
  "\<exists>new. customers_rows (database (run evs a)) = customers_rows (database a) @ new \<and>
     list_all valid_row new"
  using run_rows [of evs a] by blast

lemma two_submissions_rows:
  "customers_rows (database (run two_submissions fresh_app)) =
     [\<lparr>id_col = 1, name_col = Some ''Jane Doe'', birthday_col = Some [],
       email_col = Some ''jane@example.com'', phone_col = Some [], address_col = Some [],
       contact_method_col = Some ''Phone''\<rparr>,
      \<lparr>id_col = 2, name_col = Some ''John'', birthday_col = Some [],
       email_col = Some ''john.doe+tag@example.org'', phone_col = Some [], address_col = Some [],
       contact_method_col = Some ''Email''\<rparr>]"
  by code_simp

theorem stored_rows_valid_and_kept_witness:
  "customers_rows (database (run two_submissions fresh_app)) =
     [\<lparr>id_col = 1, name_col = Some ''Jane Doe'', birthday_col = Some [],
       email_col = Some ''jane@example.com'', phone_col = Some [], address_col = Some [],
       contact_method_col = Some ''Phone''\<rparr>,
      \<lparr>id_col = 2, name_col = Some ''John'', birthday_col = Some [],
       email_col = Some ''john.doe+tag@example.org'', phone_col = Some [], address_col = Some [],
       contact_method_col = Some ''Email''\<rparr>] \<and>
   list_all valid_row (customers_rows (database (run two_submissions fresh_app))) \<and>
   accepted_form ''jane@example.com'' \<and> accepted_form ''john.doe+tag@example.org''"
proof -
  from stored_rows_valid_and_kept [of two_submissions fresh_app]
  obtain new where "customers_rows (database (run two_submissions fresh_app)) =
      customers_rows (database fresh_app) @ new" "list_all valid_row new" by blast
  then have v: "list_all valid_row (customers_rows (database (run two_submissions fresh_app)))"
    by (simp add: fresh_app_def customers_rows_def)
  then have "accepted_form ''jane@example.com'' \<and> accepted_form ''john.doe+tag@example.org''"
    unfolding two_submissions_rows by (simp add: valid_row_def)
  with v two_submissions_rows show ?thesis by simp
qed

theorem stored_rows_counterexample:
  "customers_rows (database (run dotted_submission fresh_app)) =
     [\<lparr>id_col = 1, name_col = Some ''Jane Doe'', birthday_col = Some [],
       email_col = Some ''a@b..c'', phone_col = Some [], address_col = Some [],
       contact_method_col = Some ''Email''\<rparr>] \<and>
   \<not> spec_email_form ''a@b..c'' \<and>
   \<not> list_all spec_valid_row (customers_rows (database (run dotted_submission fresh_app)))"
  by code_simp

section \<open>The schema and the contact method\<close>





end
